theory Spec2Isabelle
  imports Complex_Main "HOL-Library.Char_ord" "HOL-Library.List_Lexorder" "HOL-Library.Sublist"
begin

section \<open>Python strings\<close>

text \<open>
  A Python \<open>str\<close> is modelled as a \<open>string\<close> whose characters are the code points
  U+0000 to U+00FF. String comparison is Python's: lexicographic by code point, a proper
  prefix being smaller, which is the order of \<open>List_Lexorder\<close> over \<open>Char_ord\<close>.
\<close>

definition LF :: char where
  "LF = CHR 0x0A"

definition CR :: char where
  "CR = CHR 0x0D"

definition py_isspace :: "char \<Rightarrow> bool" where
  \<comment> \<open>\<open>str.isspace\<close> on one code point below U+0100: TAB, LF, VT, FF, CR, FS, GS, RS, US,
      SPACE, NEL and NBSP.\<close>
  "py_isspace c =
     (let n = (of_char c :: nat)
      in (9 \<le> n \<and> n \<le> 13) \<or> (28 \<le> n \<and> n \<le> 32) \<or> n = 133 \<or> n = 160)"

definition py_strip :: "string \<Rightarrow> string" where
  \<comment> \<open>\<open>s.strip()\<close>\<close>
  "py_strip s = rev (dropWhile py_isspace (rev (dropWhile py_isspace s)))"

fun universal_newlines :: "string \<Rightarrow> string" where
  \<comment> \<open>what a file opened in text mode for reading hands out: CR LF and a lone CR become LF\<close>
  "universal_newlines [] = []"
| "universal_newlines [c] = [if c = CR then LF else c]"
| "universal_newlines (c # d # cs) =
     (if c = CR \<and> d = LF then LF # universal_newlines cs
      else if c = CR then LF # universal_newlines (d # cs)
      else c # universal_newlines (d # cs))"

fun text_lines :: "string \<Rightarrow> string list" where
  \<comment> \<open>\<open>for line in f\<close>: the lines of the text, each with its terminating LF, the last one
      without when the text does not end in LF\<close>
  "text_lines [] = []"
| "text_lines (c # cs) =
     (if c = LF then [c] # text_lines cs
      else (case text_lines cs of [] \<Rightarrow> [[c]] | l # ls \<Rightarrow> (c # l) # ls))"

section \<open>The world: files, server, log\<close>

text \<open>
  The content-length header as the code reads it: absent (or empty), a text \<open>int()\<close>
  rejects (with the message of the ValueError), or a number.
\<close>

datatype cl_header = Missing | Invalid string | Length int

datatype head_reply =
    Head_error
  | Head_reply int cl_header

datatype get_reply =
    Get_error string
  | Get_reply int cl_header "string list" "string option"

datatype event =
    Head_ev string
  | Get_ev string "int option" "int option"
  | Sleep_ev rat

text \<open>
  \<open>files\<close> maps a path to the content of the file there. \<open>denied\<close> holds the paths the
  filesystem refuses to open for writing, rename or remove, with the text of the OSError it
  raises. \<open>heads\<close> and \<open>gets\<close> are the server's replies to the HEAD and GET requests still
  to come, in order; a request that finds none left fails like a dropped connection.
  \<open>trace\<close> logs the requests sent and the sleeps taken.
\<close>

record world =
  files :: "string \<rightharpoonup> string"
  denied :: "string \<rightharpoonup> string"
  heads :: "head_reply list"
  gets :: "get_reply list"
  trace :: "event list"

section \<open>Failure ledger (failure\_handlers.py)\<close>


definition ledger_lines :: "string \<Rightarrow> string list" where
  \<comment> \<open>\<open>line.strip() for line in f if line.strip()\<close>\<close>
  "ledger_lines content =
     filter (\<lambda>l. l \<noteq> []) (map py_strip (text_lines (universal_newlines content)))"

definition load_failed_downloads :: "string \<Rightarrow> world \<Rightarrow> string set" where
  "load_failed_downloads file_path w =
     (case files w file_path of
        Some content \<Rightarrow> set (ledger_lines content)
      | None \<Rightarrow> {})"

definition ledger_text :: "string set \<Rightarrow> string" where
  \<comment> \<open>what the loop of \<open>save_failed_downloads\<close> writes: each link of \<open>sorted(failed_links)\<close>
      followed by LF\<close>
  "ledger_text failed_links = concat (map (\<lambda>link. link @ [LF]) (sorted_list_of_set failed_links))"

definition save_failed_downloads :: "string set \<Rightarrow> string \<Rightarrow> world \<Rightarrow> (string + unit) \<times> world" where
  "save_failed_downloads failed_links file_path w =
     (case denied w file_path of
        Some msg \<Rightarrow> (Inl msg, w)
      | None \<Rightarrow> (Inr (), w\<lparr>files := (files w)(file_path \<mapsto> ledger_text failed_links)\<rparr>))"

definition add_failed_download :: "string \<Rightarrow> string \<Rightarrow> world \<Rightarrow> (string + unit) \<times> world" where
  "add_failed_download link file_path w =
     (let failed_links = load_failed_downloads file_path w;
          failed_links = insert link failed_links
      in save_failed_downloads failed_links file_path w)"

definition remove_failed_download :: "string \<Rightarrow> string \<Rightarrow> world \<Rightarrow> (string + unit) \<times> world" where
  "remove_failed_download link file_path w =
     (let failed_links = load_failed_downloads file_path w;
          failed_links = failed_links - {link}
      in save_failed_downloads failed_links file_path w)"

definition clean :: "string \<Rightarrow> bool" where
  \<comment> \<open>the shape of every entry \<open>load_failed_downloads\<close> returns: a non-empty line without
      line breaks and without white space at either end\<close>
  "clean t =
     (t \<noteq> [] \<and> LF \<notin> set t \<and> CR \<notin> set t \<and> \<not> py_isspace (hd t) \<and> \<not> py_isspace (last t))"

definition w_empty :: world where
  "w_empty = \<lparr>files = Map.empty, denied = Map.empty, heads = [], gets = [], trace = []\<rparr>"

definition w_ledger :: world where
  "w_ledger = w_empty\<lparr>files := [''failed_downloads.txt'' \<mapsto> ''https://a/1'' @ [LF]]\<rparr>"

section \<open>Resumable transfer (download\_utils.py)\<close>

subsection \<open>Decimal text of an integer\<close>

definition digit_char :: "nat \<Rightarrow> char" where
  "digit_char d = ''0123456789'' ! d"

fun digits_of :: "nat \<Rightarrow> string" where
  "digits_of n = (if n < 10 then [digit_char n] else digits_of (n div 10) @ [digit_char (n mod 10)])"

declare digits_of.simps [simp del]

definition py_str :: "int \<Rightarrow> string" where
  \<comment> \<open>\<open>str(i)\<close> and the \<open>{i}\<close> of an f-string, for an int\<close>
  "py_str i = (if i < 0 then CHR ''-'' # digits_of (nat (- i)) else digits_of (nat i))"

subsection \<open>Filesystem and network calls\<close>

definition os_path_exists :: "string \<Rightarrow> world \<Rightarrow> bool" where
  "os_path_exists p w = (files w p \<noteq> None)"

definition no_such_file :: "string \<Rightarrow> string" where
  "no_such_file p = ''[Errno 2] No such file or directory: '' @ [CHR 0x27] @ p @ [CHR 0x27]"

definition os_path_getsize :: "string \<Rightarrow> world \<Rightarrow> string + int" where
  "os_path_getsize p w =
     (case files w p of
        None \<Rightarrow> Inl (no_such_file p)
      | Some content \<Rightarrow> Inr (int (length content)))"

definition os_replace :: "string \<Rightarrow> string \<Rightarrow> world \<Rightarrow> (string + unit) \<times> world" where
  "os_replace src dst w =
     (case files w src of
        None \<Rightarrow> (Inl (no_such_file src), w)
      | Some content \<Rightarrow>
          (case denied w src of
             Some msg \<Rightarrow> (Inl msg, w)
           | None \<Rightarrow>
               (case denied w dst of
                  Some msg \<Rightarrow> (Inl msg, w)
                | None \<Rightarrow> (Inr (), w\<lparr>files := (files w)(src := None, dst \<mapsto> content)\<rparr>))))"

definition os_remove :: "string \<Rightarrow> world \<Rightarrow> (string + unit) \<times> world" where
  "os_remove p w =
     (case files w p of
        None \<Rightarrow> (Inl (no_such_file p), w)
      | Some content \<Rightarrow>
          (case denied w p of
             Some msg \<Rightarrow> (Inl msg, w)
           | None \<Rightarrow> (Inr (), w\<lparr>files := (files w)(p := None)\<rparr>)))"

definition open_write :: "string \<Rightarrow> bool \<Rightarrow> world \<Rightarrow> (string + unit) \<times> world" where
  \<comment> \<open>\<open>open(p, "ab")\<close> when \<open>keep\<close> holds, \<open>open(p, "wb")\<close> otherwise: the first keeps the
      content of an existing file, the second starts from an empty file\<close>
  "open_write p keep w =
     (case denied w p of
        Some msg \<Rightarrow> (Inl msg, w)
      | None \<Rightarrow>
          (Inr (),
           w\<lparr>files := (files w)(p \<mapsto> (if keep then (case files w p of Some c \<Rightarrow> c | None \<Rightarrow> [])
                                           else []))\<rparr>))"

definition fh_write :: "string \<Rightarrow> string \<Rightarrow> world \<Rightarrow> world" where
  \<comment> \<open>\<open>fh.write(chunk)\<close> on the open file \<open>p\<close>: the chunk goes to its end\<close>
  "fh_write p chunk w =
     w\<lparr>files := (files w)(p \<mapsto> (case files w p of Some c \<Rightarrow> c | None \<Rightarrow> []) @ chunk)\<rparr>"

fun write_chunks :: "string \<Rightarrow> string list \<Rightarrow> world \<Rightarrow> world" where
  \<comment> \<open>the loop over \<open>r.iter_content\<close>: an empty chunk is passed over\<close>
  "write_chunks p [] w = w"
| "write_chunks p (chunk # chunks) w =
     (if chunk = [] then write_chunks p chunks w
      else write_chunks p chunks (fh_write p chunk w))"

definition time_sleep :: "rat \<Rightarrow> world \<Rightarrow> (string + unit) \<times> world" where
  "time_sleep secs w =
     (if secs < 0 then (Inl ''sleep length must be non-negative'', w)
      else (Inr (), w\<lparr>trace := trace w @ [Sleep_ev secs]\<rparr>))"

definition requests_head :: "string \<Rightarrow> world \<Rightarrow> head_reply \<times> world" where
  "requests_head u w =
     (case heads w of
        [] \<Rightarrow> (Head_error, w\<lparr>trace := trace w @ [Head_ev u]\<rparr>)
      | r # rs \<Rightarrow> (r, w\<lparr>heads := rs, trace := trace w @ [Head_ev u]\<rparr>))"

definition get_status :: "get_reply \<Rightarrow> int option" where
  "get_status r = (case r of Get_error msg \<Rightarrow> None | Get_reply status cl chunks broken \<Rightarrow> Some status)"

definition requests_get :: "string \<Rightarrow> int option \<Rightarrow> world \<Rightarrow> get_reply \<times> world" where
  \<comment> \<open>\<open>rng\<close> is the start of the Range header sent, when one is sent\<close>
  "requests_get u rng w =
     (case gets w of
        [] \<Rightarrow> (Get_error ''Connection aborted.'', w\<lparr>trace := trace w @ [Get_ev u rng None]\<rparr>)
      | r # rs \<Rightarrow> (r, w\<lparr>gets := rs, trace := trace w @ [Get_ev u rng (get_status r)]\<rparr>))"

definition get_total_size :: "string \<Rightarrow> world \<Rightarrow> int option \<times> world" where
  \<comment> \<open>\<open>_get_total_size\<close>\<close>
  "get_total_size u w =
     (case requests_head u w of
        (Head_error, w') \<Rightarrow> (None, w')
      | (Head_reply status cl, w') \<Rightarrow>
          (if status \<ge> 400 then (None, w')
           else (case cl of
                   Missing \<Rightarrow> (None, w')
                 | Invalid msg \<Rightarrow> (None, w')
                 | Length n \<Rightarrow> (Some n, w'))))"

subsection \<open>One pass through the try block\<close>

text \<open>
  The arguments of \<open>download_with_resume\<close>. The request headers and cookies go to the
  server unread, \<open>chunk_size\<close> only cuts the body into the chunks the reply already lists,
  and \<open>show_progress\<close> only draws a progress bar: they are left out. Directories are not
  modelled, so the \<open>os.makedirs\<close> before the loop has nothing to do.
\<close>

record dl_args =
  url :: string
  file_path :: string
  max_retries :: int
  backoff_factor :: rat

text \<open>
  How a pass through the try block ends: by a \<open>return\<close>, by the \<open>continue\<close> of the 416
  branch, or by an exception that reaches the \<open>except\<close> clause.
\<close>

datatype attempt_end = Return "bool \<times> string option" | Continue | Raise string

definition temp_path :: "dl_args \<Rightarrow> string" where
  "temp_path a = file_path a @ ''.part''"

definition relocate :: "string \<Rightarrow> string \<Rightarrow> world \<Rightarrow> world" where
  \<comment> \<open>move the final file to the partial path; if the move fails try to remove the final
      file; if that fails too go on\<close>
  "relocate final part w =
     (case os_replace final part w of
        (Inr u, w') \<Rightarrow> w'
      | (Inl msg, w') \<Rightarrow> snd (os_remove final w'))"

definition finalize :: "dl_args \<Rightarrow> world \<Rightarrow> attempt_end \<times> world" where
  \<comment> \<open>the rename of the partial file to the final one, with the copy-then-remove fallback\<close>
  "finalize a w =
     (case os_replace (temp_path a) (file_path a) w of
        (Inr u, w') \<Rightarrow> (Return (True, None), w')
      | (Inl msg, w') \<Rightarrow>
          (case files w' (temp_path a) of
             None \<Rightarrow> (Return (False, Some (''Failed to finalize download: '' @ no_such_file (temp_path a))), w')
           | Some content \<Rightarrow>
               (case open_write (file_path a) False w' of
                  (Inl ex, w'') \<Rightarrow> (Return (False, Some (''Failed to finalize download: '' @ ex)), w'')
                | (Inr u, w'') \<Rightarrow>
                    (case os_remove (temp_path a) (fh_write (file_path a) content w'') of
                       (Inl ex, w3) \<Rightarrow> (Return (False, Some (''Failed to finalize download: '' @ ex)), w3)
                     | (Inr u, w3) \<Rightarrow> (Return (True, None), w3)))))"

definition stream_body :: "dl_args \<Rightarrow> int \<Rightarrow> string list \<Rightarrow> string option \<Rightarrow> world
    \<Rightarrow> attempt_end \<times> world" where
  \<comment> \<open>open the partial file, write the chunks as they come (\<open>broken\<close> is the error that
      cuts the stream after them, if one does), then finalize\<close>
  "stream_body a existing_size chunks broken w =
     (case open_write (temp_path a) (existing_size > 0) w of
        (Inl msg, w1) \<Rightarrow> (Raise msg, w1)
      | (Inr u, w1) \<Rightarrow>
          (let w2 = write_chunks (temp_path a) chunks w1
           in (case broken of
                 Some msg \<Rightarrow> (Raise msg, w2)
               | None \<Rightarrow> finalize a w2)))"

definition receive :: "dl_args \<Rightarrow> int \<Rightarrow> cl_header \<Rightarrow> string list \<Rightarrow> string option \<Rightarrow> world
    \<Rightarrow> attempt_end \<times> world" where
  \<comment> \<open>from the content-length of the GET reply to the end of the try block, for a reply
      the code accepts; \<open>existing_size\<close> is the length it resumes from. Without the header
      the size is probed once more, for the progress bar only\<close>
  "receive a existing_size cl chunks broken w =
     (case cl of
        Invalid msg \<Rightarrow> (Raise msg, w)
      | Length n \<Rightarrow> stream_body a existing_size chunks broken w
      | Missing \<Rightarrow> stream_body a existing_size chunks broken (snd (get_total_size (url a) w)))"

definition transfer :: "dl_args \<Rightarrow> nat \<Rightarrow> world \<Rightarrow> attempt_end \<times> nat \<times> world" where
  \<comment> \<open>the try block from \<open>existing_size = 0\<close> on; the number returned is \<open>attempt\<close> as the
      block leaves it\<close>
  "transfer a attempt w =
     (case (if os_path_exists (temp_path a) w then os_path_getsize (temp_path a) w else Inr 0) of
        Inl msg \<Rightarrow> (Raise msg, attempt, w)
      | Inr existing_size \<Rightarrow>
          (case requests_get (url a) (if existing_size > 0 then Some existing_size else None) w of
             (Get_error msg, w1) \<Rightarrow> (Raise msg, attempt, w1)
           | (Get_reply status cl chunks broken, w1) \<Rightarrow>
               (if status = 416 then
                  (let w2 = snd (os_remove (temp_path a) w1);
                       attempt = attempt + 1
                   in (case time_sleep (backoff_factor a * 2 ^ attempt) w2 of
                         (Inl msg, w3) \<Rightarrow> (Raise msg, attempt, w3)
                       | (Inr u, w3) \<Rightarrow> (Continue, attempt, w3)))
                else
                  (let (existing_size, w2) =
                         (if existing_size > 0 \<and> status = 200
                          then (0, snd (os_remove (temp_path a) w1))
                          else (existing_size, w1))
                   in if status \<ge> 400 then (Raise (''HTTP '' @ py_str status), attempt, w2)
                      else (case receive a existing_size cl chunks broken w2 of
                              (e, w3) \<Rightarrow> (e, attempt, w3))))))"

definition try_block :: "dl_args \<Rightarrow> nat \<Rightarrow> world \<Rightarrow> attempt_end \<times> nat \<times> world" where
  \<comment> \<open>the whole try block: the size probe and the check of the final file, then the transfer\<close>
  "try_block a attempt w =
     (case get_total_size (url a) w of
        (total_size, w1) \<Rightarrow>
          (if os_path_exists (file_path a) w1 \<and> total_size \<noteq> None then
             (case os_path_getsize (file_path a) w1 of
                Inl msg \<Rightarrow> (Raise msg, attempt, w1)
              | Inr n \<Rightarrow>
                  (if Some n = total_size then (Return (True, None), attempt, w1)
                   else transfer a attempt (relocate (file_path a) (temp_path a) w1)))
           else transfer a attempt w1))"

subsection \<open>The retry loop\<close>

text \<open>
  The result is \<open>Inr\<close> of the pair the function returns, or \<open>Inl\<close> of the message of an
  exception that leaves the function: the only one is the ValueError of \<open>time.sleep\<close> in
  the \<open>except\<close> clause when \<open>backoff_factor\<close> is negative.
\<close>

lemma transfer_attempt:
  "transfer a attempt w = (e, attempt1, w1) \<Longrightarrow>
   attempt \<le> attempt1 \<and> (e = Continue \<longrightarrow> attempt < attempt1)"
  by (auto simp: transfer_def finalize_def receive_def stream_body_def Let_def
      split: sum.splits prod.splits get_reply.splits if_splits cl_header.splits option.splits)

lemma try_block_attempt:
  "try_block a attempt w = (e, attempt1, w1) \<Longrightarrow>
   attempt \<le> attempt1 \<and> (e = Continue \<longrightarrow> attempt < attempt1)"
  by (auto simp: try_block_def split: prod.splits sum.splits if_splits dest: transfer_attempt)

function download_loop :: "dl_args \<Rightarrow> nat \<Rightarrow> world \<Rightarrow> (string + bool \<times> string option) \<times> world" where
  "download_loop a attempt w =
     (if int attempt < max_retries a then
        (case try_block a attempt w of
           (Return r, attempt1, w1) \<Rightarrow> (Inr r, w1)
         | (Continue, attempt1, w1) \<Rightarrow> download_loop a attempt1 w1
         | (Raise e, attempt1, w1) \<Rightarrow>
             (let attempt2 = attempt1 + 1
              in if int attempt2 \<ge> max_retries a then (Inr (False, Some e), w1)
                 else (case time_sleep (backoff_factor a * 2 ^ (attempt2 - 1)) w1 of
                         (Inl msg, w2) \<Rightarrow> (Inl msg, w2)
                       | (Inr u, w2) \<Rightarrow> download_loop a attempt2 w2)))
      else (Inr (False, Some ''Unknown error''), w))"
  by pat_completeness auto
termination
proof (relation "measure (\<lambda>(a, attempt, w). nat (max_retries a - int attempt))")
  show "wf (measure (\<lambda>(a, attempt, w). nat (max_retries a - int attempt)))" by simp
next
  fix a :: dl_args and attempt :: nat and w :: world and x y x2 xa ya
  assume "int attempt < max_retries a" and "(x, y) = try_block a attempt w"
    and "(xa, ya) = y" and "x = Continue"
  then have "try_block a attempt w = (Continue, xa, ya)" by simp
  then have "attempt < xa" using try_block_attempt by blast
  then show "((a, xa, ya), a, attempt, w) \<in> measure (\<lambda>(a, attempt, w). nat (max_retries a - int attempt))"
    using \<open>int attempt < max_retries a\<close> by simp
next
  fix a :: dl_args and attempt :: nat and w :: world and x y x3 xa ya xb xc yb xd
  assume lt: "int attempt < max_retries a" and "(x, y) = try_block a attempt w"
    and "(xa, ya) = y" and "x = Raise x3" and "xb = xa + 1"
  then have "try_block a attempt w = (Raise x3, xa, ya)" by simp
  then have "attempt \<le> xa" using try_block_attempt by blast
  then show "((a, xb, yb), a, attempt, w) \<in> measure (\<lambda>(a, attempt, w). nat (max_retries a - int attempt))"
    using lt \<open>xb = xa + 1\<close> by simp
qed

definition download_with_resume :: "dl_args \<Rightarrow> world \<Rightarrow> (string + bool \<times> string option) \<times> world" where
  "download_with_resume a w = download_loop a 0 w"

subsection \<open>Observers of a run\<close>

definition final_complete :: "dl_args \<Rightarrow> world \<Rightarrow> bool" where
  \<comment> \<open>the test at which the try block returns at once: the final file exists and the
      size probe gives its size\<close>
  "final_complete a w =
     (case get_total_size (url a) w of
        (total_size, w1) \<Rightarrow>
          os_path_exists (file_path a) w1 \<and> total_size \<noteq> None
          \<and> os_path_getsize (file_path a) w1 = Inr (the total_size))"



declare download_loop.simps [simp del]

section \<open>Batch download of one post (batch\_file\_downloader.py)\<close>

text \<open>
  The fields of \<open>Config\<close> that \<open>process_post\<close> and \<open>download_file\<close> read.
  \<open>download_retries\<close> and \<open>download_backoff\<close> are \<open>None\<close> when the object has no such
  attribute, as is the case for the \<open>Config\<close> class of config.py.
\<close>

record config =
  skip_existed_files :: bool
  strict_file_verification :: bool
  post_folder_name :: string
  download_retries :: "int option"
  download_backoff :: "rat option"

record post =
  post_id :: string
  title :: string
  post_files :: "(string \<times> string) list"



subsection \<open>download\_file\<close>




subsection \<open>The verification gate: phases 1 and 2 of process\_post\<close>

text \<open>
  What the body of the phase 1 loop does with one file: count it as skipped, append it to
  \<open>files_to_verify\<close> with its size, or append it to \<open>files_to_download\<close>.
\<close>

datatype verdict = Fast_skip | To_verify int | To_download

definition precheck :: "config \<Rightarrow> string \<Rightarrow> world \<Rightarrow> verdict" where
  "precheck cfg file_save_path w =
     (let part_path = file_save_path @ ''.part'';
          final_exists = os_path_exists file_save_path w;
          part_exists = os_path_exists part_path w
      in if part_exists then To_download
         else if final_exists then
           (case os_path_getsize file_save_path w of
              Inl msg \<Rightarrow> To_download
            | Inr existing_size \<Rightarrow>
                (if existing_size > 0 then
                   (if strict_file_verification cfg then To_verify existing_size else Fast_skip)
                 else To_verify existing_size))
         else To_download)"

fun precheck_all :: "config \<Rightarrow> (string \<times> string) list \<Rightarrow> world
    \<Rightarrow> (string \<times> string \<times> int) list \<times> (string \<times> string) list \<times> nat
    \<Rightarrow> (string \<times> string \<times> int) list \<times> (string \<times> string) list \<times> nat" where
  \<comment> \<open>the phase 1 loop; the accumulator is
      \<open>(files_to_verify, files_to_download, skipped_count)\<close>\<close>
  "precheck_all cfg [] w acc = acc"
| "precheck_all cfg ((file_url, file_save_path) # ds) w (to_verify, to_download, skipped_count) =
     precheck_all cfg ds w
       (case precheck cfg file_save_path w of
          Fast_skip \<Rightarrow> (to_verify, to_download, skipped_count + 1)
        | To_verify existing_size \<Rightarrow>
            (to_verify @ [(file_url, file_save_path, existing_size)], to_download, skipped_count)
        | To_download \<Rightarrow> (to_verify, to_download @ [(file_url, file_save_path)], skipped_count))"

definition verify_file :: "string \<Rightarrow> string \<Rightarrow> int \<Rightarrow> world \<Rightarrow> (bool \<times> string) \<times> world" where
  "verify_file file_url file_save_path existing_size w =
     (case requests_head file_url w of
        (Head_error, w1) \<Rightarrow> ((False, file_save_path), w1)
      | (Head_reply status cl, w1) \<Rightarrow>
          (if status = 200 then
             (case cl of
                Invalid msg \<Rightarrow> ((False, file_save_path), w1)
              | Missing \<Rightarrow> ((False, file_save_path), w1)
              | Length expected_size \<Rightarrow>
                  (if expected_size > 0 \<and> existing_size = expected_size
                   then ((True, file_save_path), w1)
                   else if expected_size > 0
                   then ((False, file_save_path),
                         relocate file_save_path (file_save_path @ ''.part'') w1)
                   else ((False, file_save_path), w1)))
           else ((False, file_save_path), w1)))"

text \<open>
  Phase 2 hands the files to a thread pool and takes the answers as they complete. The
  model verifies them one after the other in the order of \<open>files_to_verify\<close>; phase 3 is
  read in the same way.
\<close>

fun verify_all :: "(string \<times> string \<times> int) list \<Rightarrow> world \<Rightarrow> (string \<times> string) list \<times> nat
    \<Rightarrow> ((string \<times> string) list \<times> nat) \<times> world" where
  "verify_all [] w acc = (acc, w)"
| "verify_all ((file_url, file_save_path, existing_size) # vs) w (to_download, skipped_count) =
     (case verify_file file_url file_save_path existing_size w of
        ((is_complete, fp), w1) \<Rightarrow>
          verify_all vs w1
            (if is_complete then (to_download, skipped_count + 1)
             else (to_download @ [(file_url, fp)], skipped_count)))"

definition gate :: "config \<Rightarrow> (string \<times> string) list \<Rightarrow> world
    \<Rightarrow> ((string \<times> string) list \<times> nat) \<times> world" where
  \<comment> \<open>phases 1 and 2: \<open>files_to_download\<close> and \<open>skipped_count\<close> as phase 3 finds them\<close>
  "gate cfg downloads w =
     (if skip_existed_files cfg then
        (case precheck_all cfg downloads w ([], [], 0) of
           (to_verify, to_download, skipped_count) \<Rightarrow>
             (if to_verify \<noteq> [] then verify_all to_verify w (to_download, skipped_count)
              else ((to_download, skipped_count), w)))
      else ((downloads, 0), w))"

subsection \<open>Phase 3 and the result\<close>










subsection \<open>Observers of the gate and of phase 3\<close>

definition verify_entries :: "config \<Rightarrow> world \<Rightarrow> (string \<times> string) list \<Rightarrow> (string \<times> string \<times> int) list" where
  \<comment> \<open>the entries phase 1 appends to \<open>files_to_verify\<close>, in order\<close>
  "verify_entries cfg w ds =
     concat (map (\<lambda>(u, p). case precheck cfg p w of To_verify n \<Rightarrow> [(u, p, n)] | _ \<Rightarrow> []) ds)"



section \<open>Offset planning and extraction (post\_extractor.py)\<close>

subsection \<open>Python's string methods\<close>

definition is_ascii_digit :: "char \<Rightarrow> bool" where
  "is_ascii_digit c = (let n = (of_char c :: nat) in 48 \<le> n \<and> n \<le> 57)"

definition py_isdigit :: "string \<Rightarrow> bool" where
  \<comment> \<open>\<open>s.isdigit()\<close>: below U+0100 the digits are 0 to 9 and the superscripts 2, 3, 1\<close>
  "py_isdigit s =
     (s \<noteq> [] \<and> list_all (\<lambda>c. is_ascii_digit c \<or> (of_char c :: nat) \<in> {178, 179, 185}) s)"

definition digit_val :: "char \<Rightarrow> nat" where
  "digit_val c = of_char c - 48"

fun parse_digits :: "string \<Rightarrow> nat \<Rightarrow> bool \<Rightarrow> nat option" where
  \<comment> \<open>the rest of a decimal literal, one underscore allowed between two digits\<close>
  "parse_digits [] acc after_underscore = (if after_underscore then None else Some acc)"
| "parse_digits (c # cs) acc after_underscore =
     (if is_ascii_digit c then parse_digits cs (acc * 10 + digit_val c) False
      else if c = CHR ''_'' \<and> \<not> after_underscore then parse_digits cs acc True
      else None)"

definition py_nat_literal :: "string \<Rightarrow> nat option" where
  "py_nat_literal s =
     (case s of
        [] \<Rightarrow> None
      | c # cs \<Rightarrow> if is_ascii_digit c then parse_digits cs (digit_val c) False else None)"

definition py_int :: "string \<Rightarrow> int option" where
  \<comment> \<open>\<open>int(s)\<close> for a str: surrounding white space, a sign, a decimal literal; \<open>None\<close> is
      ValueError. The interpreter's limit on the number of digits is not modelled.\<close>
  "py_int s =
     (let t = py_strip s
      in case t of
           [] \<Rightarrow> None
         | c # cs \<Rightarrow>
             if c = CHR ''+'' then map_option int (py_nat_literal cs)
             else if c = CHR ''-'' then map_option (\<lambda>n. - int n) (py_nat_literal cs)
             else map_option int (py_nat_literal t))"

fun split_on :: "char \<Rightarrow> string \<Rightarrow> string list" where
  \<comment> \<open>\<open>s.split(sep)\<close> for a one-character separator\<close>
  "split_on sep [] = [[]]"
| "split_on sep (c # cs) =
     (if c = sep then [] # split_on sep cs
      else (case split_on sep cs of [] \<Rightarrow> [[c]] | l # ls \<Rightarrow> (c # l) # ls))"

definition py_range :: "int \<Rightarrow> int \<Rightarrow> int \<Rightarrow> int list" where
  \<comment> \<open>\<open>list(range(start, stop, step))\<close> for a positive step\<close>
  "py_range start stop step =
     map (\<lambda>i. start + int i * step) [0 ..< nat ((stop - start + step - 1) div step)]"

subsection \<open>parse\_fetch\_mode\<close>

datatype py_exn = ValueError | IndexError | NameError | TypeError | Fetch_failed string

text \<open>An element of the list \<open>parse_fetch_mode\<close> returns: an int or a str.\<close>

datatype plan_item = Offset int | Tag string

definition is_offset :: "string \<Rightarrow> bool" where
  "is_offset v = (case py_int v of None \<Rightarrow> False | Some i \<Rightarrow> length v \<le> 5)"

definition range_bound :: "string \<Rightarrow> string \<Rightarrow> int \<Rightarrow> int option" where
  \<comment> \<open>one side of a range: the word stands for \<open>dflt\<close>, anything else goes through
      \<open>int()\<close>\<close>
  "range_bound word s dflt = (if s = word then Some dflt else py_int s)"

definition parse_fetch_mode :: "string \<Rightarrow> int \<Rightarrow> py_exn + plan_item list" where
  \<comment> \<open>\<open>math.ceil((end - start) / 50)\<close> is taken on the exact quotient\<close>
  "parse_fetch_mode fetch_mode total_count =
     (if fetch_mode = ''all'' then Inr (map Offset (py_range 0 total_count 50))
      else if py_isdigit fetch_mode then
        (if is_offset fetch_mode then
           (case py_int fetch_mode of
              None \<Rightarrow> Inl ValueError
            | Some i \<Rightarrow> Inr [Offset i])
         else Inr [Tag (''id:'' @ fetch_mode)])
      else if CHR ''-'' \<in> set fetch_mode then
        (case split_on CHR ''-'' fetch_mode of
           [s, e] \<Rightarrow>
             (case range_bound ''start'' s 0 of
                None \<Rightarrow> Inl ValueError
              | Some start \<Rightarrow>
                  (case range_bound ''end'' e total_count of
                     None \<Rightarrow> Inl ValueError
                   | Some end \<Rightarrow>
                       (if start \<le> total_count \<and> end \<le> total_count then
                          (let num_pages = (end - start + 49) div 50
                           in Inr (map (\<lambda>i. Offset (start + int i * 50)) [0 ..< nat num_pages]))
                        else Inr [Tag (''id:'' @ py_str start @ ''-'' @ py_str end)])))
         | _ \<Rightarrow> Inl ValueError)
      else Inl ValueError)"

subsection \<open>The ID filter\<close>

text \<open>
  \<open>id_filter\<close> as the extraction sets it: \<open>None\<close>, the lambda of an ID range (it keeps
  the two bounds as strings), or the lambda of a single ID.
\<close>

datatype id_filter = No_filter | Id_range string string | Id_equal string

definition passes :: "id_filter \<Rightarrow> string \<Rightarrow> bool" where
  \<comment> \<open>\<open>id_filter(x)\<close>; the ids of posts are strings, and \<open>\<le>\<close> on strings is Python's\<close>
  "passes f x =
     (case f of
        No_filter \<Rightarrow> True
      | Id_range id1 id2 \<Rightarrow> id1 \<le> x \<and> x \<le> id2
      | Id_equal id_range \<Rightarrow> x = id_range)"

definition id_filter_of :: "plan_item list \<Rightarrow> int \<Rightarrow> py_exn + id_filter \<times> plan_item list" where
  \<comment> \<open>the block "Check if it's a search for specific ID": the filter and the offsets to
      scan\<close>
  "id_filter_of offsets count =
     (case offsets of
        [] \<Rightarrow> Inl IndexError
      | Offset i # rest \<Rightarrow> Inr (No_filter, offsets)
      | Tag s # rest \<Rightarrow>
          (if take 3 s = ''id:'' then
             (case split_on CHR '':'' s of
                a # id_range # others \<Rightarrow>
                  (if CHR ''-'' \<in> set id_range then
                     (case those (map py_int (split_on CHR ''-'' id_range)) of
                        None \<Rightarrow> Inl ValueError
                      | Some ints \<Rightarrow>
                          (case sort ints of
                             [i1, i2] \<Rightarrow>
                               Inr (Id_range (py_str i1) (py_str i2),
                                    map Offset (py_range 0 count 50))
                           | _ \<Rightarrow> Inl ValueError))
                   else Inr (Id_equal id_range, map Offset (py_range 0 count 50)))
              | _ \<Rightarrow> Inl IndexError)
           else Inr (No_filter, offsets)))"

subsection \<open>extract\_posts\_streaming\<close>

text \<open>
  The listing and detail requests are the server's part: \<open>listing off\<close> is the page at
  offset \<open>off\<close> as \<open>process_posts\<close> has it once the detail of each post is resolved (a post
  whose detail request fails is not in it), or the exception \<open>fetch_posts\<close> ends with.
  \<open>process_posts\<close> keeps its two tests: the ID filter and the rule on posts without files.
\<close>

definition process_posts :: "post list \<Rightarrow> bool \<Rightarrow> id_filter \<Rightarrow> post list" where
  "process_posts posts save_empty_files f =
     filter (\<lambda>p. passes f (post_id p) \<and> (save_empty_files \<or> post_files p \<noteq> [])) posts"

datatype loop_end = Go_on | Finished | Raised py_exn

fun yield_posts :: "id_filter \<Rightarrow> post list \<Rightarrow> string set \<Rightarrow> post list \<times> string set \<times> loop_end" where
  \<comment> \<open>the inner loop: the posts yielded, \<open>found_ids\<close>, and how the loop is left. With the
      filter of a single ID the names \<open>id1\<close> and \<open>id2\<close> are not bound.\<close>
  "yield_posts f [] found_ids = ([], found_ids, Go_on)"
| "yield_posts f (p # ps) found_ids =
     (case f of
        No_filter \<Rightarrow>
          (case yield_posts f ps found_ids of (ys, fd, e) \<Rightarrow> (p # ys, fd, e))
      | Id_equal id_range \<Rightarrow> ([p], insert (post_id p) found_ids, Raised NameError)
      | Id_range id1 id2 \<Rightarrow>
          (let found_ids = insert (post_id p) found_ids
           in if id1 \<in> found_ids \<and> id2 \<in> found_ids then ([p], found_ids, Finished)
              else (case yield_posts f ps found_ids of (ys, fd, e) \<Rightarrow> (p # ys, fd, e))))"

record stream_run =
  yielded :: "post list"
  fetched :: "int list"
  outcome :: "py_exn option"

fun stream_pages :: "(int \<Rightarrow> py_exn + post list) \<Rightarrow> bool \<Rightarrow> id_filter \<Rightarrow> plan_item list
    \<Rightarrow> string set \<Rightarrow> stream_run" where
  \<comment> \<open>the main loop; \<open>fetched\<close> lists the offsets \<open>fetch_posts\<close> was called with\<close>
  "stream_pages listing save_empty_files f [] found_ids =
     \<lparr>yielded = [], fetched = [], outcome = None\<rparr>"
| "stream_pages listing save_empty_files f (Tag s # rest) found_ids =
     \<lparr>yielded = [], fetched = [], outcome = Some TypeError\<rparr>"
| "stream_pages listing save_empty_files f (Offset off # rest) found_ids =
     (case listing off of
        Inl e \<Rightarrow> \<lparr>yielded = [], fetched = [off], outcome = Some e\<rparr>
      | Inr post_data \<Rightarrow>
          (case yield_posts f (process_posts post_data save_empty_files f) found_ids of
             (ys, fd, Go_on) \<Rightarrow>
               (let r = stream_pages listing save_empty_files f rest fd
                in r\<lparr>yielded := ys @ yielded r, fetched := off # fetched r\<rparr>)
           | (ys, fd, Finished) \<Rightarrow> \<lparr>yielded = ys, fetched = [off], outcome = None\<rparr>
           | (ys, fd, Raised e) \<Rightarrow> \<lparr>yielded = ys, fetched = [off], outcome = Some e\<rparr>))"

definition extract_posts_streaming :: "string \<Rightarrow> int \<Rightarrow> bool \<Rightarrow> (int \<Rightarrow> py_exn + post list)
    \<Rightarrow> stream_run" where
  \<comment> \<open>from "Process fetch mode" on; \<open>count\<close> is the \<open>post_count\<close> of the profile. A
      ValueError of \<open>parse_fetch_mode\<close> is printed and the generator ends.\<close>
  "extract_posts_streaming fetch_mode count save_empty_files listing =
     (case parse_fetch_mode fetch_mode count of
        Inl e \<Rightarrow> \<lparr>yielded = [], fetched = [], outcome = (if e = ValueError then None else Some e)\<rparr>
      | Inr offsets \<Rightarrow>
          (case id_filter_of offsets count of
             Inl e \<Rightarrow> \<lparr>yielded = [], fetched = [], outcome = Some e\<rparr>
           | Inr (f, offsets) \<Rightarrow> stream_pages listing save_empty_files f offsets {}))"

subsection \<open>extract\_posts\<close>

fun collect_pages :: "(int \<Rightarrow> py_exn + post list) \<Rightarrow> bool \<Rightarrow> id_filter \<Rightarrow> plan_item list
    \<Rightarrow> string set \<Rightarrow> stream_run" where
  \<comment> \<open>the main loop of \<open>extract_posts\<close>: \<open>yielded\<close> is \<open>new_posts\<close>; the found ids are
      looked at once per page that kept a post. The JSON file it rewrites is left out.\<close>
  "collect_pages listing save_empty_files f [] found_ids =
     \<lparr>yielded = [], fetched = [], outcome = None\<rparr>"
| "collect_pages listing save_empty_files f (Tag s # rest) found_ids =
     \<lparr>yielded = [], fetched = [], outcome = Some TypeError\<rparr>"
| "collect_pages listing save_empty_files f (Offset off # rest) found_ids =
     (case listing off of
        Inl e \<Rightarrow> \<lparr>yielded = [], fetched = [off], outcome = Some e\<rparr>
      | Inr post_data \<Rightarrow>
          (let processed_posts = process_posts post_data save_empty_files f;
               go_on = (\<lambda>fd. let r = collect_pages listing save_empty_files f rest fd
                             in r\<lparr>yielded := processed_posts @ yielded r,
                                  fetched := off # fetched r\<rparr>)
           in if processed_posts \<noteq> [] then
                (case f of
                   No_filter \<Rightarrow> go_on found_ids
                 | Id_equal id_range \<Rightarrow>
                     \<lparr>yielded = processed_posts, fetched = [off], outcome = Some NameError\<rparr>
                 | Id_range id1 id2 \<Rightarrow>
                     (let found_ids = found_ids \<union> set (map post_id processed_posts)
                      in if id1 \<in> found_ids \<and> id2 \<in> found_ids
                         then \<lparr>yielded = processed_posts, fetched = [off], outcome = None\<rparr>
                         else go_on found_ids))
              else go_on found_ids))"

definition extract_posts :: "string \<Rightarrow> int \<Rightarrow> bool \<Rightarrow> (int \<Rightarrow> py_exn + post list)
    \<Rightarrow> stream_run" where
  \<comment> \<open>from "Process fetch mode" on: with no post it writes an empty posts file and
      returns before anything is planned\<close>
  "extract_posts fetch_mode count save_empty_files listing =
     (if count = 0 then \<lparr>yielded = [], fetched = [], outcome = None\<rparr>
      else
        (case parse_fetch_mode fetch_mode count of
           Inl e \<Rightarrow>
             \<lparr>yielded = [], fetched = [], outcome = (if e = ValueError then None else Some e)\<rparr>
         | Inr offsets \<Rightarrow>
             (case id_filter_of offsets count of
                Inl e \<Rightarrow> \<lparr>yielded = [], fetched = [], outcome = Some e\<rparr>
              | Inr (f, offsets) \<Rightarrow> collect_pages listing save_empty_files f offsets {})))"

section \<open>The producer of the pipeline (parallel\_extract\_download.py)\<close>

text \<open>
  The state the extraction worker shares with the download workers: the bounded queue
  (its head first), the statistics counter \<open>total\<close> and the completion flag. \<open>taken\<close>
  lists the records the download workers have taken off the queue so far; \<open>puts\<close> logs
  the calls of \<open>post_queue.put\<close>, each with its record and with whether it returned
  (\<open>True\<close>) or raised \<open>queue.Full\<close> (\<open>False\<close>); \<open>warnings\<close> lists the records for which
  "Warning: Could not put post in queue" was printed and \<open>errors\<close> the exceptions printed
  as "Error during extraction".
\<close>

record pipeline =
  post_queue :: "post list"
  taken :: "post list"
  puts :: "(post \<times> bool) list"
  total :: nat
  warnings :: "post list"
  errors :: "py_exn list"
  extraction_done :: bool

definition QUEUE_MAXSIZE :: nat where
  "QUEUE_MAXSIZE = 10"

definition queue_put :: "post \<Rightarrow> nat \<Rightarrow> pipeline \<Rightarrow> bool \<times> pipeline" where
  \<comment> \<open>\<open>post_queue.put(post, timeout=10)\<close>. What the download workers do meanwhile is
      theirs to decide: \<open>drained\<close> is the number of records they take off the queue before
      the wait is over. The call returns if there is room then (\<open>True\<close>) and raises
      \<open>queue.Full\<close> otherwise (\<open>False\<close>).\<close>
  "queue_put p drained st =
     (let n = min drained (length (post_queue st));
          st1 = st\<lparr>taken := taken st @ take n (post_queue st),
                    post_queue := drop n (post_queue st)\<rparr>
      in if length (post_queue st1) < QUEUE_MAXSIZE
         then (True, st1\<lparr>post_queue := post_queue st1 @ [p], puts := puts st1 @ [(p, True)]\<rparr>)
         else (False, st1\<lparr>puts := puts st1 @ [(p, False)]\<rparr>))"

fun produce :: "post list \<Rightarrow> nat list \<Rightarrow> pipeline \<Rightarrow> pipeline" where
  \<comment> \<open>the loop over the records of the generator; \<open>drains\<close> gives, put after put, what the
      download workers take meanwhile (nothing once the list is used up)\<close>
  "produce [] drains st = st"
| "produce (p # ps) drains st =
     (let st1 = st\<lparr>total := total st + 1\<rparr>
      in (case queue_put p (case drains of [] \<Rightarrow> 0 | d # ds \<Rightarrow> d) st1 of
            (True, st2) \<Rightarrow> produce ps (tl drains) st2
          | (False, st2) \<Rightarrow> produce ps (tl drains) (st2\<lparr>warnings := warnings st2 @ [p]\<rparr>)))"

definition extraction_worker :: "stream_run \<Rightarrow> nat list \<Rightarrow> pipeline \<Rightarrow> pipeline" where
  \<comment> \<open>\<open>run\<close> is what the generator yields and how it ends\<close>
  "extraction_worker run drains st =
     (let st1 = produce (yielded run) drains st;
          st2 = (case outcome run of None \<Rightarrow> st1 | Some e \<Rightarrow> st1\<lparr>errors := errors st1 @ [e]\<rparr>)
      in st2\<lparr>extraction_done := True\<rparr>)"

subsection \<open>Observers of the producer\<close>

fun put_outcomes :: "nat \<Rightarrow> nat list \<Rightarrow> nat \<Rightarrow> bool list" where
  \<comment> \<open>whether each of \<open>n\<close> successive puts finds room, on a queue that holds \<open>len\<close>
      records at first: a put finds room when, the download workers having taken their
      records, fewer than \<open>QUEUE_MAXSIZE\<close> are queued\<close>
  "put_outcomes 0 drains len = []"
| "put_outcomes (Suc n) drains len =
     (let len1 = len - (case drains of [] \<Rightarrow> 0 | d # ds \<Rightarrow> d);
          ok = (len1 < QUEUE_MAXSIZE)
      in ok # put_outcomes n (tl drains) (if ok then len1 + 1 else len1))"

definition put_log :: "post list \<Rightarrow> nat list \<Rightarrow> nat \<Rightarrow> (post \<times> bool) list" where
  \<comment> \<open>one put for each record, in order, with its outcome\<close>
  "put_log ps drains len = zip ps (put_outcomes (length ps) drains len)"

section \<open>Concrete inputs\<close>

definition cfg_default :: config where
  \<comment> \<open>the defaults of the \<open>Config\<close> class\<close>
  "cfg_default =
     \<lparr>skip_existed_files = True, strict_file_verification = False, post_folder_name = ''id'',
      download_retries = None, download_backoff = None\<rparr>"

definition a_once :: dl_args where
  "a_once = \<lparr>url = ''https://h/f'', file_path = ''d/1-f'', max_retries = 1, backoff_factor = 1\<rparr>"

definition a_twice :: dl_args where
  "a_twice = \<lparr>url = ''https://h/f'', file_path = ''d/1-f'', max_retries = 2, backoff_factor = 1\<rparr>"





definition w_416 :: world where
  \<comment> \<open>a partial file of three bytes, no size from HEAD, and a server that answers the
      ranged GET with 416\<close>
  "w_416 = w_empty\<lparr>files := [''d/1-f.part'' \<mapsto> ''abc''], gets := [Get_reply 416 Missing [] None]\<rparr>"


definition w_empty_final :: world where
  \<comment> \<open>an empty final file, no partial file, and a remote file of three bytes\<close>
  "w_empty_final = w_empty\<lparr>files := [''d/1-f'' \<mapsto> ''''], heads := [Head_reply 200 (Length 3)]\<rparr>"





definition mk_post :: "string \<Rightarrow> post" where
  "mk_post i = \<lparr>post_id = i, title = '''', post_files = []\<rparr>"

definition eleven_posts :: "post list" where
  "eleven_posts =
     map mk_post [''a'', ''b'', ''c'', ''d'', ''e'', ''f'', ''g'', ''h'', ''i'', ''j'', ''k'']"

definition pipeline_init :: pipeline where
  "pipeline_init =
     \<lparr>post_queue = [], taken = [], puts = [], total = 0, warnings = [], errors = [],
      extraction_done = False\<rparr>"

section \<open>Properties of the failure ledger\<close>

lemma un_append_LF:
  "universal_newlines (x @ LF # b) = universal_newlines (x @ [LF]) @ universal_newlines b"
proof (induction x rule: universal_newlines.induct)
  case 1
  then show ?case by (cases b) (auto simp: LF_def CR_def)
next
  case (2 c)
  then show ?case by (cases b) (auto simp: LF_def CR_def)
next
  case (3 c d cs)
  then show ?case by auto
qed

lemma text_lines_nonempty: "text_lines (x @ [LF]) \<noteq> []"
  by (induction x) (auto split: list.splits)

lemma text_lines_append_LF:
  "text_lines (x @ LF # b) = text_lines (x @ [LF]) @ text_lines b"
  by (induction x) (auto split: list.splits simp: text_lines_nonempty)

lemma un_no_CR: "CR \<notin> set (universal_newlines s)"
  by (induction s rule: universal_newlines.induct) (auto simp: LF_def CR_def)

lemma un_id: "CR \<notin> set s \<Longrightarrow> universal_newlines s = s"
  by (induction s rule: universal_newlines.induct) auto

lemma text_lines_single: "LF \<notin> set s \<Longrightarrow> text_lines (s @ [LF]) = [s @ [LF]]"
  by (induction s) (auto split: list.splits)


lemma un_ends_LF: "\<exists>y. universal_newlines (x @ [LF]) = y @ [LF]"
proof (induction x rule: universal_newlines.induct)
  case 1
  then show ?case by simp
next
  case (2 c)
  then show ?case by (auto simp: LF_def CR_def)
next
  case (3 c d cs)
  then show ?case by (auto simp: Cons_eq_append_conv) 
qed

lemma ledger_lines_append:
  "ledger_lines (x @ LF # b) = ledger_lines (x @ [LF]) @ ledger_lines b"
proof -
  obtain y where y: "universal_newlines (x @ [LF]) = y @ [LF]"
    using un_ends_LF by blast
  have "text_lines (universal_newlines (x @ LF # b))
        = text_lines (universal_newlines (x @ [LF])) @ text_lines (universal_newlines b)"
    using un_append_LF [of x b] y text_lines_append_LF [of y "universal_newlines b"] by simp
  then show ?thesis by (simp add: ledger_lines_def)
qed

lemma ledger_lines_concat:
  "ledger_lines (concat (map (\<lambda>l. l @ [LF]) xs)) = concat (map (\<lambda>l. ledger_lines (l @ [LF])) xs)"
proof (induction xs)
  case Nil
  then show ?case by (simp add: ledger_lines_def)
next
  case (Cons x xs)
  have "ledger_lines (concat (map (\<lambda>l. l @ [LF]) (x # xs)))
        = ledger_lines (x @ LF # concat (map (\<lambda>l. l @ [LF]) xs))" by simp
  also have "\<dots> = ledger_lines (x @ [LF]) @ ledger_lines (concat (map (\<lambda>l. l @ [LF]) xs))"
    by (rule ledger_lines_append)
  finally show ?case using Cons.IH by simp
qed

lemma py_isspace_LF: "py_isspace LF"
  by (simp add: py_isspace_def LF_def)

lemma py_strip_clean: "clean t \<Longrightarrow> py_strip (t @ [LF]) = t"
proof -
  assume c: "clean t"
  then obtain a u where t: "t = a # u" by (cases t) (auto simp: clean_def)
  from c have h: "\<not> py_isspace a" by (simp add: clean_def t)
  from c have l: "\<not> py_isspace (last t)" by (simp add: clean_def)
  have r: "rev t \<noteq> []" using t by simp
  have "hd (rev t) = last t" using t by (simp add: hd_rev)
  then have d: "dropWhile py_isspace (rev t) = rev t"
    using l by (simp add: dropWhile_eq_self_iff)
  have "dropWhile py_isspace (t @ [LF]) = t @ [LF]" using h t by simp
  then show ?thesis
    by (simp add: py_strip_def py_isspace_LF d)
qed

lemma ledger_lines_clean: "clean t \<Longrightarrow> ledger_lines (t @ [LF]) = [t]"
proof -
  assume c: "clean t"
  have "CR \<notin> set (t @ [LF])" using c by (auto simp: clean_def LF_def CR_def)
  then have u: "universal_newlines (t @ [LF]) = t @ [LF]" by (rule un_id)
  have tl: "text_lines (t @ [LF]) = [t @ [LF]]" using c by (simp add: text_lines_single clean_def)
  show ?thesis using c by (simp add: ledger_lines_def u tl py_strip_clean clean_def)
qed

lemma concat_text_lines: "concat (text_lines s) = s"
  by (induction s) (auto split: list.splits)

lemma text_lines_LF_last: "l \<in> set (text_lines s) \<Longrightarrow> l \<noteq> [] \<and> LF \<notin> set (butlast l)"
proof (induction s arbitrary: l)
  case Nil
  then show ?case by simp
next
  case (Cons c cs)
  then show ?case by (auto split: list.splits if_splits)
qed

lemma py_strip_decomp: "\<exists>a b. l = a @ py_strip l @ b"
proof -
  let ?m = "dropWhile py_isspace l"
  have 1: "l = takeWhile py_isspace l @ ?m" by simp
  have "rev (takeWhile py_isspace (rev ?m) @ dropWhile py_isspace (rev ?m)) = rev (rev ?m)"
    by (simp only: takeWhile_dropWhile_id)
  then have "rev (dropWhile py_isspace (rev ?m)) @ rev (takeWhile py_isspace (rev ?m)) = ?m"
    by (simp only: rev_append rev_rev_ident)
  then have 2: "?m = py_strip l @ rev (takeWhile py_isspace (rev ?m))"
    by (simp only: py_strip_def)
  show ?thesis using 1 2 by metis
qed

lemma py_strip_ends:
  assumes "py_strip l \<noteq> []"
  shows "\<not> py_isspace (hd (py_strip l)) \<and> \<not> py_isspace (last (py_strip l))"
proof -
  let ?m = "dropWhile py_isspace l"
  let ?z = "dropWhile py_isspace (rev ?m)"
  have z: "?z \<noteq> []" using assms by (simp add: py_strip_def)
  have lastz: "\<not> py_isspace (hd ?z)" using z by (rule hd_dropWhile)
  have m: "?m \<noteq> []" using z by (metis dropWhile.simps(1) rev.simps(1))
  have "last ?z = last (rev ?m)"
    using z by (metis last_appendR takeWhile_dropWhile_id)
  also have "\<dots> = hd ?m" using m by (simp add: last_rev)
  finally have "\<not> py_isspace (last ?z)" using m hd_dropWhile by metis
  then show ?thesis using lastz z by (simp add: py_strip_def hd_rev last_rev)
qed

lemma ledger_lines_are_clean:
  assumes "t \<in> set (ledger_lines c)"
  shows "clean t"
proof -
  from assms obtain l where l: "l \<in> set (text_lines (universal_newlines c))"
    and t: "t = py_strip l" and ne: "t \<noteq> []"
    by (auto simp: ledger_lines_def)
  have ends: "\<not> py_isspace (hd t) \<and> \<not> py_isspace (last t)"
    using py_strip_ends ne t by simp
  obtain a b where ab: "l = a @ t @ b" using py_strip_decomp t by blast
  have "set l \<subseteq> set (universal_newlines c)"
    using l concat_text_lines [of "universal_newlines c"] by (metis Sup_upper image_eqI set_concat)
  then have cr: "CR \<notin> set t" using un_no_CR ab by auto
  have bl: "LF \<notin> set (butlast l)" using text_lines_LF_last l by blast
  have lf: "LF \<notin> set t"
  proof
    assume in_t: "LF \<in> set t"
    obtain t' z where tz: "t = t' @ [z]" using ne by (metis rev_exhaust)
    have "z \<noteq> LF" using ends tz py_isspace_LF by auto
    then have "LF \<in> set t'" using in_t tz by auto
    moreover have "butlast l = a @ t' @ butlast ([z] @ b)"
      using ab tz by (simp add: butlast_append)
    ultimately show False using bl by auto
  qed
  show ?thesis using ne cr lf ends by (simp add: clean_def)
qed

lemma finite_load: "finite (load_failed_downloads p w)"
  by (simp add: load_failed_downloads_def split: option.splits)

lemma load_clean: "t \<in> load_failed_downloads p w \<Longrightarrow> clean t"
  by (auto simp: load_failed_downloads_def ledger_lines_are_clean split: option.splits)

lemma load_after_save:
  assumes "finite S" and "denied w p = None"
  shows "load_failed_downloads p (snd (save_failed_downloads S p w))
         = (\<Union>s\<in>S. set (ledger_lines (s @ [LF])))"
  using assms
  by (simp add: load_failed_downloads_def save_failed_downloads_def ledger_text_def
      ledger_lines_concat)

lemma load_after_save_clean:
  assumes "finite S" and "denied w p = None" and "\<forall>s\<in>S. clean s"
  shows "load_failed_downloads p (snd (save_failed_downloads S p w)) = S"
  using assms by (simp add: load_after_save ledger_lines_clean)

lemma save_denied: "denied w p = Some m \<Longrightarrow> save_failed_downloads S p w = (Inl m, w)"
  by (simp add: save_failed_downloads_def)

lemma denied_save [simp]: "denied (snd (save_failed_downloads S p w)) = denied w"
  by (simp add: save_failed_downloads_def split: option.splits)

lemma load_after_add:
  assumes "denied w p = None"
  shows "load_failed_downloads p (snd (add_failed_download x p w))
         = load_failed_downloads p w \<union> set (ledger_lines (x @ [LF]))"
proof -
  have "load_failed_downloads p (snd (add_failed_download x p w))
        = (\<Union>s\<in>insert x (load_failed_downloads p w). set (ledger_lines (s @ [LF])))"
    using assms by (simp add: add_failed_download_def load_after_save finite_load)
  also have "\<dots> = set (ledger_lines (x @ [LF])) \<union> (\<Union>s\<in>load_failed_downloads p w. {s})"
    using load_clean [of _ p w] by (simp add: ledger_lines_clean)
  finally show ?thesis by auto
qed

lemma load_after_remove:
  assumes "denied w p = None"
  shows "load_failed_downloads p (snd (remove_failed_download x p w))
         = load_failed_downloads p w - {x}"
  using assms load_clean [of _ p w]
  by (simp add: remove_failed_download_def load_after_save_clean finite_load)

lemma denied_add [simp]: "denied (snd (add_failed_download x p w)) = denied w"
  by (simp add: add_failed_download_def)

lemma denied_remove [simp]: "denied (snd (remove_failed_download x p w)) = denied w"
  by (simp add: remove_failed_download_def)

text \<open>
  Claim C8. The ledger operations are idempotent on the persisted set, the set
  \<open>load_failed_downloads\<close> reads back from the file: adding a link twice leaves the same
  set as adding it once, and removing twice a link that is not in the set leaves the set as
  it was. This holds for every link, every file content and also when the file cannot be
  written (then no call changes it).
\<close>

theorem ledger_idempotent:
  "load_failed_downloads p (snd (add_failed_download x p (snd (add_failed_download x p w))))
     = load_failed_downloads p (snd (add_failed_download x p w))
   \<and> (x \<notin> load_failed_downloads p w \<longrightarrow>
        load_failed_downloads p
          (snd (remove_failed_download x p (snd (remove_failed_download x p w))))
        = load_failed_downloads p w)"
proof (cases "denied w p")
  case None
  have "load_failed_downloads p (snd (add_failed_download x p (snd (add_failed_download x p w))))
        = load_failed_downloads p (snd (add_failed_download x p w))"
    using None by (auto simp: load_after_add)
  moreover have "x \<notin> load_failed_downloads p w \<longrightarrow>
        load_failed_downloads p
          (snd (remove_failed_download x p (snd (remove_failed_download x p w))))
        = load_failed_downloads p w"
    using None by (auto simp: load_after_remove)
  ultimately show ?thesis by blast
next
  case (Some m)
  then show ?thesis
    by (simp add: add_failed_download_def remove_failed_download_def save_denied)
qed

lemma load_w_ledger: "load_failed_downloads ''failed_downloads.txt'' w_ledger = {''https://a/1''}"
  by (simp add: load_failed_downloads_def w_ledger_def w_empty_def ledger_lines_def
      LF_def CR_def py_strip_def py_isspace_def)

theorem ledger_idempotent_witness:
  "''https://b/2'' \<notin> load_failed_downloads ''failed_downloads.txt'' w_ledger
   \<and> load_failed_downloads ''failed_downloads.txt''
        (snd (remove_failed_download ''https://b/2'' ''failed_downloads.txt''
           (snd (remove_failed_download ''https://b/2'' ''failed_downloads.txt'' w_ledger))))
      = {''https://a/1''}"
  using ledger_idempotent [of "''failed_downloads.txt''" "''https://b/2''" w_ledger]
  by (simp add: load_w_ledger)

lemma no_space_clean:
  assumes "s \<noteq> []" and "\<forall>c\<in>set s. \<not> py_isspace c"
  shows "clean s"
proof -
  have "py_isspace CR" by (simp add: py_isspace_def CR_def)
  then show ?thesis using assms py_isspace_LF by (auto simp: clean_def)
qed

lemma text_lines_ledger:
  "\<forall>s\<in>set xs. LF \<notin> set s \<Longrightarrow>
   text_lines (concat (map (\<lambda>l. l @ [LF]) xs)) = map (\<lambda>l. l @ [LF]) xs"
proof (induction xs)
  case Nil
  then show ?case by simp
next
  case (Cons x xs)
  have "text_lines (x @ LF # concat (map (\<lambda>l. l @ [LF]) xs))
        = text_lines (x @ [LF]) @ text_lines (concat (map (\<lambda>l. l @ [LF]) xs))"
    by (rule text_lines_append_LF)
  then show ?case using Cons by (simp add: text_lines_single)
qed

text \<open>
  Claim C10. Persistence round-trips: for a finite set of links that are non-empty and hold
  no white space, loading the file \<open>save_failed_downloads\<close> has written gives the set
  back, and the file holds one link per line, each ended by LF, in strictly ascending order.
\<close>

theorem ledger_roundtrip:
  assumes "finite S"
    and "\<forall>s\<in>S. s \<noteq> [] \<and> (\<forall>c\<in>set s. \<not> py_isspace c)"
    and "denied w p = None"
  shows "load_failed_downloads p (snd (save_failed_downloads S p w)) = S
         \<and> (\<exists>content us. files (snd (save_failed_downloads S p w)) p = Some content
              \<and> text_lines content = map (\<lambda>u. u @ [LF]) us
              \<and> content = concat (map (\<lambda>u. u @ [LF]) us)
              \<and> set us = S \<and> sorted_wrt (<) us)"
proof -
  have c: "\<forall>s\<in>S. clean s" using assms(2) no_space_clean by blast
  have 1: "load_failed_downloads p (snd (save_failed_downloads S p w)) = S"
    using assms(1,3) c by (rule load_after_save_clean)
  let ?us = "sorted_list_of_set S"
  have lf: "\<forall>s\<in>set ?us. LF \<notin> set s"
    using assms(1,2) py_isspace_LF by auto
  have 2: "files (snd (save_failed_downloads S p w)) p = Some (concat (map (\<lambda>u. u @ [LF]) ?us))"
    using assms(3) by (simp add: save_failed_downloads_def ledger_text_def)
  have 3: "text_lines (concat (map (\<lambda>u. u @ [LF]) ?us)) = map (\<lambda>u. u @ [LF]) ?us"
    using lf by (rule text_lines_ledger)
  have 4: "set ?us = S \<and> sorted_wrt (<) ?us"
    using assms(1) by (simp add: strict_sorted_iff)
  show ?thesis using 1 2 3 4 by blast
qed

theorem ledger_roundtrip_witness:
  "finite {''https://b/2'', ''https://a/1''}
   \<and> denied w_empty ''failed_downloads.txt'' = None
   \<and> load_failed_downloads ''failed_downloads.txt''
        (snd (save_failed_downloads {''https://b/2'', ''https://a/1''} ''failed_downloads.txt''
           w_empty))
      = {''https://b/2'', ''https://a/1''}"
proof -
  have h: "\<forall>s\<in>{''https://b/2'', ''https://a/1''}. s \<noteq> [] \<and> (\<forall>c\<in>set s. \<not> py_isspace c)"
    by (simp add: py_isspace_def)
  have d: "denied w_empty ''failed_downloads.txt'' = None" by (simp add: w_empty_def)
  show ?thesis
    using h d
      ledger_roundtrip [of "{''https://b/2'', ''https://a/1''}" w_empty "''failed_downloads.txt''"]
    by simp
qed
section \<open>Properties of the resumable transfer\<close>

lemmas call_defs = get_total_size_def requests_head_def requests_get_def os_path_exists_def
  os_path_getsize_def os_remove_def os_replace_def open_write_def time_sleep_def get_status_def
  relocate_def


lemma download_loop_0:
  "download_with_resume a w =
     (if 0 < max_retries a then
        (case try_block a 0 w of
           (Return r, attempt1, w1) \<Rightarrow> (Inr r, w1)
         | (Continue, attempt1, w1) \<Rightarrow> download_loop a attempt1 w1
         | (Raise e, attempt1, w1) \<Rightarrow>
             (let attempt2 = attempt1 + 1
              in if int attempt2 \<ge> max_retries a then (Inr (False, Some e), w1)
                 else (case time_sleep (backoff_factor a * 2 ^ (attempt2 - 1)) w1 of
                         (Inl msg, w2) \<Rightarrow> (Inl msg, w2)
                       | (Inr u, w2) \<Rightarrow> download_loop a attempt2 w2)))
      else (Inr (False, Some ''Unknown error''), w))"
  unfolding download_with_resume_def by (subst download_loop.simps) simp





lemma get_total_size_world:
  "get_total_size u w = (t, w1) \<Longrightarrow>
   files w1 = files w \<and> denied w1 = denied w \<and> gets w1 = gets w
   \<and> trace w1 = trace w @ [Head_ev u]"
  by (auto simp: get_total_size_def requests_head_def
      split: list.splits head_reply.splits if_splits cl_header.splits)

lemma relocate_world:
  "gets (relocate f p w) = gets w \<and> trace (relocate f p w) = trace w
   \<and> denied (relocate f p w) = denied w \<and> heads (relocate f p w) = heads w"
  by (auto simp: relocate_def os_replace_def os_remove_def split: option.splits)

lemma os_remove_world:
  "gets (snd (os_remove p w)) = gets w \<and> trace (snd (os_remove p w)) = trace w
   \<and> denied (snd (os_remove p w)) = denied w \<and> heads (snd (os_remove p w)) = heads w"
  by (auto simp: os_remove_def split: option.splits)

lemma os_remove_gone:
  "denied w p = None \<Longrightarrow> files (snd (os_remove p w)) p = None"
  by (auto simp: os_remove_def split: option.splits)

lemma transfer_416:
  assumes "0 \<le> backoff_factor a" and "gets w = Get_reply 416 cl chunks broken # rest"
  shows "\<exists>w' rng. transfer a attempt w = (Continue, attempt + 1, w')
          \<and> trace w' = trace w @ [Get_ev (url a) rng (Some 416),
                                   Sleep_ev (backoff_factor a * 2 ^ (attempt + 1))]
          \<and> gets w' = rest
          \<and> (denied w (temp_path a) = None \<longrightarrow> files w' (temp_path a) = None)"
proof -
  have nn: "\<not> backoff_factor a * 2 ^ (attempt + 1) < 0"
    using assms(1) by (simp add: mult_less_0_iff)
  have "\<exists>n. (if os_path_exists (temp_path a) w then os_path_getsize (temp_path a) w else Inr 0) = Inr n"
    by (cases "files w (temp_path a)") (simp_all add: os_path_exists_def os_path_getsize_def)
  then obtain n where n: "(if os_path_exists (temp_path a) w then os_path_getsize (temp_path a) w else Inr 0) = Inr n"
    by blast
  define rng where "rng = (if n > 0 then Some n else None)"
  define w1 where "w1 = w\<lparr>gets := rest, trace := trace w @ [Get_ev (url a) rng (Some 416)]\<rparr>"
  define w2 where "w2 = snd (os_remove (temp_path a) w1)"
  define w3 where "w3 = w2\<lparr>trace := trace w2 @ [Sleep_ev (backoff_factor a * 2 ^ (attempt + 1))]\<rparr>"
  have g: "requests_get (url a) rng w = (Get_reply 416 cl chunks broken, w1)"
    using assms(2) by (simp add: requests_get_def get_status_def w1_def)
  have t: "transfer a attempt w = (Continue, attempt + 1, w3)"
    unfolding transfer_def n using g nn
    by (simp add: time_sleep_def Let_def rng_def [symmetric] w2_def [symmetric] w3_def)
  have 1: "denied w (temp_path a) = None \<longrightarrow> files w3 (temp_path a) = None"
    using os_remove_gone [of w1 "temp_path a"] by (simp add: w3_def w2_def w1_def)
  have 2: "trace w3 = trace w @ [Get_ev (url a) rng (Some 416),
                                   Sleep_ev (backoff_factor a * 2 ^ (attempt + 1))]"
    using os_remove_world [of "temp_path a" w1] by (simp add: w3_def w2_def w1_def)
  have 3: "gets w3 = rest"
    using os_remove_world [of "temp_path a" w1] by (simp add: w3_def w2_def w1_def)
  show ?thesis
    by (rule exI [of _ w3], rule exI [of _ rng]) (simp add: t 1 2 3)
qed

lemma try_block_to_transfer:
  assumes "\<not> final_complete a w"
  shows "\<exists>w1. try_block a attempt w = transfer a attempt w1
          \<and> gets w1 = gets w \<and> trace w1 = trace w @ [Head_ev (url a)] \<and> denied w1 = denied w"
proof -
  obtain t w0 where h: "get_total_size (url a) w = (t, w0)" by (cases "get_total_size (url a) w")
  note hw = get_total_size_world [OF h]
  show ?thesis
  proof (cases "os_path_exists (file_path a) w0 \<and> t \<noteq> None")
    case False
    then have "try_block a attempt w = transfer a attempt w0"
      using h by (auto simp: try_block_def)
    then show ?thesis using hw by blast
  next
    case True
    then obtain c where c: "files w0 (file_path a) = Some c"
      by (auto simp: os_path_exists_def)
    then have sz: "os_path_getsize (file_path a) w0 = Inr (int (length c))"
      by (simp add: os_path_getsize_def)
    have "Some (int (length c)) \<noteq> t"
      using assms h True sz by (auto simp: final_complete_def)
    then have "try_block a attempt w = transfer a attempt (relocate (file_path a) (temp_path a) w0)"
      using h True sz by (simp add: try_block_def)
    then show ?thesis using hw relocate_world [of "file_path a" "temp_path a" w0] by auto
  qed
qed

text \<open>
  Claim C2, as the code has it. When the GET of an attempt is answered with status 416
  (and \<open>backoff_factor\<close> is not negative), the try block removes the partial file, adds one
  to \<open>attempt\<close>, sleeps \<open>backoff_factor * 2 ^ attempt\<close> seconds with the new value of
  \<open>attempt\<close>, and goes to the loop test: the next pass starts from zero if an attempt is
  left, and otherwise the call returns \<open>(False, "Unknown error")\<close>.
\<close>

theorem restart_on_416:
  assumes "int attempt < max_retries a" and "0 \<le> backoff_factor a"
    and "gets w = Get_reply 416 cl chunks broken # rest"
    and "\<not> final_complete a w"
  shows "\<exists>w' rng. try_block a attempt w = (Continue, attempt + 1, w')
          \<and> download_loop a attempt w = download_loop a (attempt + 1) w'
          \<and> trace w' = trace w @ [Head_ev (url a), Get_ev (url a) rng (Some 416),
                                   Sleep_ev (backoff_factor a * 2 ^ (attempt + 1))]
          \<and> gets w' = rest
          \<and> (denied w (temp_path a) = None \<longrightarrow> files w' (temp_path a) = None)
          \<and> (max_retries a \<le> int attempt + 1 \<longrightarrow>
                download_loop a attempt w = (Inr (False, Some ''Unknown error''), w'))"
proof -
  obtain w1 where w1: "try_block a attempt w = transfer a attempt w1" "gets w1 = gets w"
    "trace w1 = trace w @ [Head_ev (url a)]" "denied w1 = denied w"
    using try_block_to_transfer [OF assms(4)] by blast
  have g: "gets w1 = Get_reply 416 cl chunks broken # rest" using w1(2) assms(3) by simp
  obtain w' rng where t: "transfer a attempt w1 = (Continue, attempt + 1, w')"
    and tr: "trace w' = trace w1 @ [Get_ev (url a) rng (Some 416),
                                   Sleep_ev (backoff_factor a * 2 ^ (attempt + 1))]"
    and gs: "gets w' = rest"
    and fl: "denied w1 (temp_path a) = None \<longrightarrow> files w' (temp_path a) = None"
    using transfer_416 [OF assms(2) g] by blast
  have tb: "try_block a attempt w = (Continue, attempt + 1, w')" using w1(1) t by simp
  have loop: "download_loop a attempt w = download_loop a (attempt + 1) w'"
    using assms(1) tb by (subst download_loop.simps) simp
  have last: "max_retries a \<le> int attempt + 1 \<longrightarrow>
                download_loop a attempt w = (Inr (False, Some ''Unknown error''), w')"
  proof
    assume "max_retries a \<le> int attempt + 1"
    then have "download_loop a (attempt + 1) w' = (Inr (False, Some ''Unknown error''), w')"
      by (subst download_loop.simps) simp
    then show "download_loop a attempt w = (Inr (False, Some ''Unknown error''), w')"
      using loop by simp
  qed
  show ?thesis using tb loop tr gs fl last w1(3,4) by auto
qed















subsection \<open>A file that is already complete\<close>




subsection \<open>Status 416\<close>

text \<open>
  Claim C2 as stated fails. With one attempt allowed, a partial file of three bytes and a
  server that answers 416: the partial file is removed, then the code sleeps
  \<open>backoff_factor * 2 ^ 1\<close> seconds and the loop ends, the 416 having used up the only
  attempt; no second GET is sent and the call returns \<open>(False, "Unknown error")\<close>.
\<close>

theorem restart_416_counterexample:
  "download_with_resume a_once w_416 =
     (Inr (False, Some ''Unknown error''),
      w_empty\<lparr>trace := [Head_ev ''https://h/f'', Get_ev ''https://h/f'' (Some 3) (Some 416),
                         Sleep_ev 2]\<rparr>)"
  by (simp add: download_loop_0 a_once_def w_416_def w_empty_def try_block_def transfer_def
      call_defs temp_path_def download_loop.simps)

text \<open>The theorem at the first of two attempts, on a partial file of three bytes.\<close>

theorem restart_on_416_witness:
  "\<exists>w' rng. try_block a_twice 0 w_416 = (Continue, 1, w')
      \<and> download_loop a_twice 0 w_416 = download_loop a_twice 1 w'
      \<and> trace w' = [Head_ev ''https://h/f'', Get_ev ''https://h/f'' rng (Some 416), Sleep_ev 2]
      \<and> gets w' = []
      \<and> files w' ''d/1-f.part'' = None"
  using restart_on_416 [of 0 a_twice w_416 Missing "[]" None "[]"]
  by (simp add: a_twice_def w_416_def w_empty_def final_complete_def call_defs temp_path_def)

subsection \<open>All attempts used up\<close>





section \<open>Properties of the batch download\<close>

lemma precheck_all_closed:
  "precheck_all cfg ds w (tv, td, sk) =
     (tv @ verify_entries cfg w ds,
      td @ filter (\<lambda>(u, p). precheck cfg p w = To_download) ds,
      sk + length (filter (\<lambda>(u, p). precheck cfg p w = Fast_skip) ds))"
proof (induction ds arbitrary: tv td sk)
  case Nil
  then show ?case by (simp add: verify_entries_def)
next
  case (Cons d ds)
  obtain u p where d: "d = (u, p)" by (cases d)
  show ?case
    by (cases "precheck cfg p w") (simp_all add: d Cons.IH verify_entries_def)
qed


lemma verify_file_path: "verify_file u p n w = ((c, fp), w1) \<Longrightarrow> fp = p"
  by (auto simp: verify_file_def requests_head_def
      split: list.splits head_reply.splits if_splits cl_header.splits)

lemma verify_file_trace:
  "verify_file u p n w = (r, w1) \<Longrightarrow> trace w1 = trace w @ [Head_ev u]"
  using relocate_world
  by (auto simp: verify_file_def requests_head_def
      split: list.splits head_reply.splits if_splits cl_header.splits)

lemma verify_file_empty: "verify_file u p 0 w = ((c, fp), w1) \<Longrightarrow> \<not> c"
  by (auto simp: verify_file_def requests_head_def
      split: list.splits head_reply.splits if_splits cl_header.splits)

lemma verify_all_props:
  "verify_all vs w (td, sk) = ((td', sk'), w') \<Longrightarrow>
     length td' + sk' = length td + sk + length vs
     \<and> set td \<subseteq> set td'
     \<and> (\<exists>evs. trace w' = trace w @ evs)
     \<and> (\<forall>(u, p, n)\<in>set vs. Head_ev u \<in> set (trace w'))
     \<and> (\<forall>(u, p, n)\<in>set vs. n = 0 \<longrightarrow> (u, p) \<in> set td')"
proof (induction vs arbitrary: w td sk)
  case Nil
  then show ?case by simp
next
  case (Cons v vs)
  obtain u p n where v: "v = (u, p, n)" by (cases v)
  obtain c fp w1 where vf: "verify_file u p n w = ((c, fp), w1)"
    by (cases "verify_file u p n w") auto
  have fp: "fp = p" using vf by (rule verify_file_path)
  have tr: "trace w1 = trace w @ [Head_ev u]" using vf by (rule verify_file_trace)
  define acc where "acc = (if c then (td, sk + 1) else (td @ [(u, p)], sk))"
  have step: "verify_all vs w1 (fst acc, snd acc) = ((td', sk'), w')"
    using Cons.prems vf fp by (simp add: v acc_def split: if_splits)
  note IH = Cons.IH [OF step]
  have 1: "length td' + sk' = length td + sk + length (v # vs)"
    using IH by (auto simp: acc_def split: if_splits)
  have 2: "set td \<subseteq> set td'" using IH by (auto simp: acc_def split: if_splits)
  have 3: "\<exists>evs. trace w' = trace w @ evs" using IH tr by auto
  have 4: "\<forall>(u, p, n)\<in>set (v # vs). Head_ev u \<in> set (trace w')"
    using IH tr by (auto simp: v)
  have "n = 0 \<longrightarrow> (u, p) \<in> set td'"
    using IH verify_file_empty [of u p w c fp w1] vf by (auto simp: acc_def split: if_splits)
  then have 5: "\<forall>(u, p, n)\<in>set (v # vs). n = 0 \<longrightarrow> (u, p) \<in> set td'"
    using IH by (auto simp: v)
  show ?case using 1 2 3 4 5 by blast
qed


lemma verify_all_trace:
  "verify_all vs w acc = (r, w') \<Longrightarrow> trace w' = trace w @ map (\<lambda>(u, p, n). Head_ev u) vs"
proof (induction vs arbitrary: w acc)
  case Nil
  then show ?case by simp
next
  case (Cons v vs)
  obtain u p n where v: "v = (u, p, n)" by (cases v)
  obtain td sk where acc: "acc = (td, sk)" by (cases acc)
  obtain c fp w1 where vf: "verify_file u p n w = ((c, fp), w1)"
    by (cases "verify_file u p n w") auto
  have tr: "trace w1 = trace w @ [Head_ev u]" using vf by (rule verify_file_trace)
  show ?case using Cons.prems vf tr Cons.IH by (auto simp: v acc split: if_splits)
qed

lemma precheck_empty_final:
  assumes "files w (p @ ''.part'') = None" and "files w p = Some []"
  shows "precheck cfg p w = To_verify 0"
  using assms by (simp add: precheck_def os_path_exists_def os_path_getsize_def)

lemma verify_entries_mem:
  "(u, p) \<in> set ds \<Longrightarrow> precheck cfg p w = To_verify n \<Longrightarrow> (u, p, n) \<in> set (verify_entries cfg w ds)"
  by (force simp: verify_entries_def)

text \<open>
  Claim C7, as the code has it. A candidate with no partial file and an empty final file is
  not put into \<open>files_to_download\<close> by phase 1: it is put into \<open>files_to_verify\<close> with
  size 0. With skip-existing enabled the gate then sends one HEAD for each entry of
  \<open>files_to_verify\<close>, this one included, and whatever the answer the file ends in
  \<open>files_to_download\<close>. With skip-existing disabled the gate downloads every candidate and
  sends nothing.
\<close>

theorem empty_final_is_verified:
  assumes "(u, p) \<in> set ds" and "files w (p @ ''.part'') = None" and "files w p = Some []"
  shows "precheck cfg p w = To_verify 0
         \<and> (if skip_existed_files cfg
            then \<exists>td sk w'. gate cfg ds w = ((td, sk), w')
                   \<and> (u, p) \<in> set td
                   \<and> (u, p, 0) \<in> set (verify_entries cfg w ds)
                   \<and> trace w' = trace w @ map (\<lambda>(u, p, n). Head_ev u) (verify_entries cfg w ds)
            else gate cfg ds w = ((ds, 0), w))"
proof -
  have pc: "precheck cfg p w = To_verify 0" using assms(2,3) by (rule precheck_empty_final)
  have mem: "(u, p, 0) \<in> set (verify_entries cfg w ds)"
    using assms(1) pc by (rule verify_entries_mem)
  show ?thesis
  proof (cases "skip_existed_files cfg")
    case False
    then show ?thesis using pc by (simp add: gate_def)
  next
    case True
    let ?tv = "verify_entries cfg w ds"
    let ?td = "filter (\<lambda>(u, p). precheck cfg p w = To_download) ds"
    let ?sk = "length (filter (\<lambda>(u, p). precheck cfg p w = Fast_skip) ds)"
    have ne: "?tv \<noteq> []" using mem by auto
    obtain td sk w' where va: "verify_all ?tv w (?td, ?sk) = ((td, sk), w')"
      by (cases "verify_all ?tv w (?td, ?sk)") auto
    have g: "gate cfg ds w = ((td, sk), w')"
      using True ne va by (simp add: gate_def precheck_all_closed)
    have "(u, p) \<in> set td" using verify_all_props [OF va] mem by auto
    moreover have "trace w' = trace w @ map (\<lambda>(u, p, n). Head_ev u) ?tv"
      using va by (rule verify_all_trace)
    ultimately show ?thesis using True pc g mem by simp
  qed
qed

text \<open>
  The theorem at one candidate.
\<close>

theorem empty_final_is_verified_witness:
  "precheck cfg_default ''d/1-f'' w_empty_final = To_verify 0
   \<and> (\<exists>td sk w'. gate cfg_default [(''https://h/f'', ''d/1-f'')] w_empty_final = ((td, sk), w')
         \<and> (''https://h/f'', ''d/1-f'') \<in> set td
         \<and> trace w' = [Head_ev ''https://h/f''])"
  using empty_final_is_verified [of "''https://h/f''" "''d/1-f''" "[(''https://h/f'', ''d/1-f'')]"
      w_empty_final cfg_default]
  by (simp add: w_empty_final_def w_empty_def cfg_default_def verify_entries_def precheck_def
      os_path_exists_def os_path_getsize_def)

text \<open>
  Claim C7 as stated fails: for an empty final file without partial file, phase 1 leaves
  \<open>files_to_download\<close> empty and the gate sends a HEAD for the file before it reaches the
  download set (here the answer also makes the gate move the empty file to the partial
  path).
\<close>

theorem empty_final_counterexample:
  "files w_empty_final ''d/1-f.part'' = None
   \<and> files w_empty_final ''d/1-f'' = Some ''''
   \<and> precheck_all cfg_default [(''https://h/f'', ''d/1-f'')] w_empty_final ([], [], 0)
       = ([(''https://h/f'', ''d/1-f'', 0)], [], 0)
   \<and> gate cfg_default [(''https://h/f'', ''d/1-f'')] w_empty_final
       = (([(''https://h/f'', ''d/1-f'')], 0),
          w_empty\<lparr>files := [''d/1-f.part'' \<mapsto> ''''], trace := [Head_ev ''https://h/f'']\<rparr>)"
  by (simp add: w_empty_final_def w_empty_def cfg_default_def gate_def precheck_def
      verify_file_def call_defs fun_upd_twist)
























section \<open>Properties of the offset planner and of the extraction\<close>

lemmas str_defs = py_isdigit_def is_ascii_digit_def digit_val_def py_nat_literal_def py_int_def
  py_strip_def py_isspace_def py_str_def digits_of.simps digit_char_def

lemma py_range_empty: "py_range 0 0 50 = []"
  by (simp add: py_range_def)

text \<open>
  Claim C4 fails on the code: the filter of an ID range compares strings. The descriptor
  \<open>999999-1000001\<close> on a profile of 100 posts is an ID range, its bounds are sorted as
  integers and turned back into strings, and the post with id \<open>1000000\<close>, which lies
  between them as a number, does not pass; with \<open>100000-200000\<close> the post with id \<open>15\<close>,
  which lies outside, passes.
\<close>

theorem id_range_filter_compares_strings:
  "parse_fetch_mode ''999999-1000001'' 100 = Inr [Tag ''id:999999-1000001'']
   \<and> id_filter_of [Tag ''id:999999-1000001''] 100
       = Inr (Id_range ''999999'' ''1000001'', [Offset 0, Offset 50])
   \<and> \<not> passes (Id_range ''999999'' ''1000001'') ''1000000''
   \<and> py_int ''1000000'' = Some 1000000 \<and> (999999 :: int) \<le> 1000000 \<and> (1000000 :: int) \<le> 1000001
   \<and> parse_fetch_mode ''100000-200000'' 100 = Inr [Tag ''id:100000-200000'']
   \<and> id_filter_of [Tag ''id:100000-200000''] 100
       = Inr (Id_range ''100000'' ''200000'', [Offset 0, Offset 50])
   \<and> passes (Id_range ''100000'' ''200000'') ''15''
   \<and> py_int ''15'' = Some 15 \<and> \<not> (100000 :: int) \<le> 15"
  by (simp add: parse_fetch_mode_def is_offset_def range_bound_def id_filter_of_def passes_def
      py_range_def upt_conv_Cons str_defs)

text \<open>
  Claim C6 and the streaming extraction: the two plans of the claim are computed as it says,
  \<open>all\<close> with 120 posts gives the offsets 0, 50, 100 and \<open>0\<close> with 10 posts gives the offset
  0. With no post \<open>extract_posts\<close> returns before it plans or fetches anything, whatever the
  descriptor. \<open>extract_posts_streaming\<close> has no such test: on a profile with no post the
  descriptor \<open>0\<close> is planned as the page at offset 0, which is fetched, and the descriptor
  \<open>all\<close> is planned as no page, after which the first planned item is read and the
  generator ends with an \<open>IndexError\<close>.
\<close>

theorem streaming_lacks_empty_guard:
  "parse_fetch_mode ''all'' 120 = Inr [Offset 0, Offset 50, Offset 100]
   \<and> parse_fetch_mode ''0'' 10 = Inr [Offset 0]
   \<and> extract_posts m 0 save listing = \<lparr>yielded = [], fetched = [], outcome = None\<rparr>
   \<and> parse_fetch_mode ''0'' 0 = Inr [Offset 0]
   \<and> extract_posts_streaming ''0'' 0 True (\<lambda>off. Inr [])
       = \<lparr>yielded = [], fetched = [0], outcome = None\<rparr>
   \<and> parse_fetch_mode ''all'' 0 = Inr []
   \<and> extract_posts_streaming ''all'' 0 True (\<lambda>off. Inr [])
       = \<lparr>yielded = [], fetched = [], outcome = Some IndexError\<rparr>"
proof -
  have 1: "parse_fetch_mode ''all'' 120 = Inr [Offset 0, Offset 50, Offset 100]"
    by (simp add: parse_fetch_mode_def py_range_def upt_conv_Cons)
  have 2: "parse_fetch_mode ''0'' 10 = Inr [Offset 0]"
    by (simp add: parse_fetch_mode_def is_offset_def str_defs)
  have 3: "extract_posts m 0 save listing = \<lparr>yielded = [], fetched = [], outcome = None\<rparr>"
    by (simp add: extract_posts_def)
  have 4: "parse_fetch_mode ''0'' 0 = Inr [Offset 0]"
    by (simp add: parse_fetch_mode_def is_offset_def str_defs)
  have 5: "extract_posts_streaming ''0'' 0 True (\<lambda>off. Inr [])
       = \<lparr>yielded = [], fetched = [0], outcome = None\<rparr>"
    by (simp add: extract_posts_streaming_def 4 id_filter_of_def process_posts_def)
  have 6: "parse_fetch_mode ''all'' 0 = Inr []"
    by (simp add: parse_fetch_mode_def py_range_empty)
  have 7: "extract_posts_streaming ''all'' 0 True (\<lambda>off. Inr [])
       = \<lparr>yielded = [], fetched = [], outcome = Some IndexError\<rparr>"
    by (simp add: extract_posts_streaming_def 6 id_filter_of_def)
  show ?thesis using 1 2 3 4 5 6 7 by simp
qed

section \<open>Properties of the producer\<close>

lemma queue_put_effect:
  "queue_put p d st = (ok, st') \<Longrightarrow>
     ok = (length (post_queue st) - d < QUEUE_MAXSIZE)
     \<and> length (post_queue st') = (if ok then length (post_queue st) - d + 1 else length (post_queue st) - d)
     \<and> puts st' = puts st @ [(p, ok)]
     \<and> warnings st' = warnings st \<and> total st' = total st \<and> errors st' = errors st
     \<and> taken st' @ post_queue st' = taken st @ post_queue st @ (if ok then [p] else [])"
proof -
  assume a: "queue_put p d st = (ok, st')"
  have td: "take (min d (length (post_queue st))) (post_queue st)
        @ drop (min d (length (post_queue st))) (post_queue st) = post_queue st"
    by (rule append_take_drop_id)
  have len: "length (post_queue st) - min d (length (post_queue st)) = length (post_queue st) - d"
    by simp
  show ?thesis using a td len
    by (auto simp: queue_put_def Let_def split: if_splits)
qed

lemma produce_log:
  "puts (produce ps drains st) = puts st @ put_log ps drains (length (post_queue st))
   \<and> taken (produce ps drains st) @ post_queue (produce ps drains st)
        = taken st @ post_queue st
          @ map fst (filter snd (put_log ps drains (length (post_queue st))))
   \<and> warnings (produce ps drains st)
        = warnings st
          @ map fst (filter (\<lambda>(p, ok). \<not> ok) (put_log ps drains (length (post_queue st))))
   \<and> total (produce ps drains st) = total st + length ps
   \<and> errors (produce ps drains st) = errors st"
proof (induction ps arbitrary: drains st)
  case Nil
  then show ?case by (simp add: put_log_def)
next
  case (Cons p ps)
  define d where "d = (case drains of [] \<Rightarrow> 0 | d # ds \<Rightarrow> d)"
  define st1 where "st1 = st\<lparr>total := total st + 1\<rparr>"
  obtain ok st2 where q: "queue_put p d st1 = (ok, st2)" by (cases "queue_put p d st1")
  note qe = queue_put_effect [OF q]
  define st3 where "st3 = (if ok then st2 else st2\<lparr>warnings := warnings st2 @ [p]\<rparr>)"
  have step: "produce (p # ps) drains st = produce ps (tl drains) st3"
    using q by (cases ok) (simp_all add: d_def st1_def st3_def Let_def)
  have ok: "ok = (length (post_queue st) - d < QUEUE_MAXSIZE)"
    using qe by (simp add: st1_def)
  have len3: "length (post_queue st3)
              = (if ok then length (post_queue st) - d + 1 else length (post_queue st) - d)"
    using qe by (simp add: st3_def st1_def)
  have log: "put_log (p # ps) drains (length (post_queue st))
             = (p, ok) # put_log ps (tl drains) (length (post_queue st3))"
    using ok len3 by (simp add: put_log_def d_def Let_def)
  note IH = Cons.IH [of "tl drains" st3]
  show ?case
    unfolding step log using IH qe
    by (cases ok) (simp_all add: st3_def st1_def)
qed

text \<open>
  Claim C5, as the code has it: the producer calls \<open>put\<close> once for every record that the
  generator yields, in the order of the records, and never again for the same record; the
  call for a record completes in time exactly when the queue, after the consumer has taken
  its share, holds fewer than \<open>QUEUE_MAXSIZE\<close> records. The records added to the queue are
  exactly those whose call completed, in order; those whose call timed out are dropped with
  a warning, in order; every record is counted in the total, and the extraction is marked as
  done at the end.
\<close>

theorem producer_puts_once:
  "puts (extraction_worker run drains st)
     = puts st @ put_log (yielded run) drains (length (post_queue st))
   \<and> taken (extraction_worker run drains st) @ post_queue (extraction_worker run drains st)
       = taken st @ post_queue st
         @ map fst (filter snd (put_log (yielded run) drains (length (post_queue st))))
   \<and> warnings (extraction_worker run drains st)
       = warnings st
         @ map fst (filter (\<lambda>(p, ok). \<not> ok)
                      (put_log (yielded run) drains (length (post_queue st))))
   \<and> map fst (put_log (yielded run) drains (length (post_queue st))) = yielded run
   \<and> total (extraction_worker run drains st) = total st + length (yielded run)
   \<and> extraction_done (extraction_worker run drains st)"
proof -
  have len: "length (put_outcomes n ds l) = n" for n ds l
    by (induction n arbitrary: ds l) (simp_all add: Let_def)
  have m: "map fst (put_log (yielded run) drains (length (post_queue st))) = yielded run"
    by (simp add: put_log_def len)
  show ?thesis
    using produce_log [of "yielded run" drains st] m
    by (auto simp: extraction_worker_def Let_def split: option.splits)
qed

text \<open>
  Claim C5 as stated fails: with eleven records and a consumer that takes nothing, the
  eleventh call of \<open>put\<close> times out; the record is counted in the total and is in neither
  the queue nor the records taken, so not every record is pushed into the queue.
\<close>

theorem producer_drops_counterexample:
  "post_queue (extraction_worker \<lparr>yielded = eleven_posts, fetched = [], outcome = None\<rparr> []
      pipeline_init) = take 10 eleven_posts
   \<and> taken (extraction_worker \<lparr>yielded = eleven_posts, fetched = [], outcome = None\<rparr> []
      pipeline_init) = []
   \<and> puts (extraction_worker \<lparr>yielded = eleven_posts, fetched = [], outcome = None\<rparr> []
      pipeline_init) = map (\<lambda>p. (p, True)) (take 10 eleven_posts) @ [(mk_post ''k'', False)]
   \<and> warnings (extraction_worker \<lparr>yielded = eleven_posts, fetched = [], outcome = None\<rparr> []
      pipeline_init) = [mk_post ''k'']
   \<and> total (extraction_worker \<lparr>yielded = eleven_posts, fetched = [], outcome = None\<rparr> []
      pipeline_init) = 11
   \<and> extraction_done (extraction_worker \<lparr>yielded = eleven_posts, fetched = [], outcome = None\<rparr> []
      pipeline_init)"
  by (simp add: extraction_worker_def eleven_posts_def pipeline_init_def queue_put_def
      QUEUE_MAXSIZE_def Let_def)

end
